theory Spec2Isabelle
  imports Main
begin

section \<open>C strings and the library calls on them\<close>

text \<open>
  A byte of the C source (\<^verbatim>\<open>char\<close>, read through \<^verbatim>\<open>unsigned char\<close>) is a
  \<^typ>\<open>char\<close>; \<^term>\<open>of_char\<close> reads it as a number between 0 and 255. A buffer is the list
  of its bytes. The C string that starts a buffer ends before the buffer's first 0x00 byte; when the
  list holds no 0x00 byte, the terminator stands right after the list. Bytes behind the terminator
  belong to the buffer (a pointer may be moved over them) but no string function reads them.
\<close>

definition cstr :: "string \<Rightarrow> string" where
  "cstr s = takeWhile (\<lambda>c. c \<noteq> CHR 0x00) s"

definition strlen :: "string \<Rightarrow> nat" where
  "strlen s = length (cstr s)"

text \<open>\<^verbatim>\<open>s[0]\<close>: the first byte of the buffer, the terminator when the string is empty.\<close>

definition first_byte :: "string \<Rightarrow> char" where
  "first_byte s = (case s of [] \<Rightarrow> CHR 0x00 | c # _ \<Rightarrow> c)"

text \<open>
  \<^verbatim>\<open>strncpy(t, d, n)\<close> leaves in \<^verbatim>\<open>t\<close> the first \<^verbatim>\<open>n\<close> bytes of the string
  \<^verbatim>\<open>d\<close> (padded with 0x00); \<^verbatim>\<open>strncmp(a, b, n)\<close> is non-zero exactly when the two
  strings differ within their first \<^verbatim>\<open>n\<close> bytes.
\<close>

definition strncpy :: "string \<Rightarrow> nat \<Rightarrow> string" where
  "strncpy d n = take n (cstr d)"

definition strncmp :: "string \<Rightarrow> string \<Rightarrow> nat \<Rightarrow> bool" where
  "strncmp a b n = (take n (cstr a) \<noteq> take n (cstr b))"

text \<open>
  \<^verbatim>\<open>snprintf(t, n, d, i)\<close> for a format whose only conversion is \<^verbatim>\<open>%d\<close> and a
  non-negative \<^verbatim>\<open>i\<close>: the decimal digits of \<^verbatim>\<open>i\<close> replace the first
  \<^verbatim>\<open>%d\<close>, and at most \<^verbatim>\<open>n - 1\<close> bytes are kept before the terminator.
\<close>

fun digits :: "nat \<Rightarrow> string" where
  "digits i = (if i < 10 then [''0123456789'' ! i]
               else digits (i div 10) @ [''0123456789'' ! (i mod 10)])"

declare digits.simps [simp del]

fun format_d :: "string \<Rightarrow> nat \<Rightarrow> string" where
  "format_d [] i = []"
| "format_d [c] i = [c]"
| "format_d (c # e # r) i =
     (if c = CHR ''%'' \<and> e = CHR ''d'' then digits i @ r else c # format_d (e # r) i)"

definition snprintf :: "nat \<Rightarrow> string \<Rightarrow> nat \<Rightarrow> string" where
  "snprintf n d i = take (n - 1) (format_d (cstr d) i)"


section \<open>What a call does besides returning\<close>

text \<open>
  The calls that leave the translation unit are kept, in order, in a trace:
  \<^verbatim>\<open>log_message\<close> with its severity and message, \<^verbatim>\<open>freesat_huffman_to_string\<close>
  with the buffer and the length it is given, \<^verbatim>\<open>iconv_open\<close>, \<^verbatim>\<open>iconv_close\<close> and
  \<^verbatim>\<open>iconv\<close> with the source charset of the descriptor, and \<^verbatim>\<open>exit\<close>.
\<close>

datatype severity = WARNING | ERROR

datatype message = ReservedEncoding char | IconvOpenFailed | ForbiddenChar char

datatype call =
    Log severity message
  | FreesatHuffman string nat
  | IconvOpen string
  | IconvClose string
  | Iconv string string
  | Exit nat

text \<open>
  Ways the C code leaves its defined behaviour; the model stops there.
\<close>

datatype undefined_behaviour =
    WildPointer    \<comment> \<open>a word that is not a pointer to a string is dereferenced\<close>
  | NullPointer    \<comment> \<open>a null pointer is dereferenced or called\<close>
  | ReadPastEnd    \<comment> \<open>a string is read behind the terminator of its buffer\<close>
  | BufOverrun     \<comment> \<open>a write behind the end of \<^verbatim>\<open>buf\<close>\<close>
  | ResultOverrun  \<comment> \<open>a write behind the end of \<^verbatim>\<open>result\<close>\<close>

text \<open>
  How a step ends when it does not carry on: a handler returns 1 (\<open>UnsupportedEncoding\<close>, with the
  byte it logged), \<^verbatim>\<open>iconv_open\<close> fails and the process exits (\<open>UnsupportedCharset\<close>), or
  the behaviour is undefined. \<open>InvalidInput\<close> is the name the specification gives to an empty or
  too short field; no path of the source produces it.
\<close>

datatype error =
    UnsupportedEncoding char
  | InvalidInput
  | UnsupportedCharset string
  | Undefined undefined_behaviour

text \<open>
  What the translation unit does not define is a parameter: the Freesat decoder, the conversion
  engine (whether \<^verbatim>\<open>iconv_open("UTF-8", name)\<close> returns a descriptor, and the bytes
  \<^verbatim>\<open>iconv\<close> writes for a descriptor opened for \<^verbatim>\<open>name\<close> and an input), and the
  words that follow the variable \<^verbatim>\<open>s\<close> of \<^verbatim>\<open>convert_text\<close> in memory, each
  with the buffer it points to (\<open>None\<close> for a word that is no pointer to a string). The
  engine is taken to convert each input on its own: a shift state that a descriptor would carry
  from one call to the next is not modelled.
\<close>

record env =
  freesat_huffman_to_string :: "string \<Rightarrow> nat \<Rightarrow> string"
  iconv_open :: "string \<Rightarrow> bool"
  iconv :: "string \<Rightarrow> string \<Rightarrow> string"
  words_after_s :: "string option list"


section \<open>The encoding table and its handlers\<close>

definition MAX_len :: nat where
  "MAX_len = 1024"

text \<open>
  \<^verbatim>\<open>iso6937_encoding\<close> is a global pointer that this file initialises and never assigns; the
  model takes its initial value.
\<close>

definition iso6937_encoding :: string where
  "iso6937_encoding = ''ISO6937''"

text \<open>
  A handler \<^verbatim>\<open>int h(char *t, const char **s, const char *d)\<close> gets the address of the
  caller's pointer: \<^verbatim>\<open>s[0]\<close> is that pointer and \<^verbatim>\<open>s[k]\<close> the \<open>k\<close>-th word behind
  it. The model passes the list of these words, each as the buffer it points to. A handler that
  returns 0 has written the charset name to \<^verbatim>\<open>t\<close> and moved \<^verbatim>\<open>*s\<close> forward by some
  bytes: it yields the name and that number. A handler that returns 1 yields an error.
\<close>

type_synonym handler =
  "string option list \<Rightarrow> string option \<Rightarrow> call list \<times> (error + string \<times> nat)"

text \<open>\<^verbatim>\<open>*s[k]\<close>, which C reads as \<^verbatim>\<open>*(s[k])\<close>: the first byte the \<open>k\<close>-th word points to.\<close>

definition deref :: "string option list \<Rightarrow> nat \<Rightarrow> error + char" where
  "deref s k =
     (if k < length s
      then (case s ! k of None \<Rightarrow> Inl (Undefined WildPointer) | Some b \<Rightarrow> Inr (first_byte b))
      else Inl (Undefined WildPointer))"

definition encoding_default :: handler where
  "encoding_default s d = ([], Inr (strncpy iso6937_encoding 16, 0))"

definition encoding_fixed :: handler where
  "encoding_fixed s d =
     (case d of
        None \<Rightarrow> ([], Inl (Undefined NullPointer))
      | Some name \<Rightarrow> ([], Inr (strncpy name 16, 1)))"

definition encoding_freesat :: handler where
  "encoding_freesat s d =
     (case d of
        None \<Rightarrow> ([], Inl (Undefined NullPointer))
      | Some name \<Rightarrow> ([], Inr (strncpy name 16, 0)))"

definition encoding_variable :: handler where
  "encoding_variable s d =
     (case deref s 1 of
        Inl err \<Rightarrow> ([], Inl err)
      | Inr c1 \<Rightarrow>
          (case deref s 2 of
             Inl err \<Rightarrow> ([], Inl err)
           | Inr c2 \<Rightarrow>
               (case d of
                  None \<Rightarrow> ([], Inl (Undefined NullPointer))
                | Some fmt \<Rightarrow>
                    ([], Inr (snprintf 16 fmt (push_bit 8 (of_char c1) + of_char c2), 3)))))"

definition encoding_reserved :: handler where
  "encoding_reserved s d =
     (case deref s 0 of
        Inl err \<Rightarrow> ([], Inl err)
      | Inr c \<Rightarrow> ([Log WARNING (ReservedEncoding c)], Inl (UnsupportedEncoding c)))"

text \<open>An entry of the table without initialiser: a null function pointer.\<close>

definition null_handler :: handler where
  "null_handler s d = ([], Inl (Undefined NullPointer))"

definition encoding :: "(handler \<times> string option) list" where
  "encoding =
     [ (encoding_reserved, None),
       (encoding_fixed, Some ''ISO-8859-5''),
       (encoding_fixed, Some ''ISO-8859-6''),
       (encoding_fixed, Some ''ISO-8859-7''),
       (encoding_fixed, Some ''ISO-8859-8''),
       (encoding_fixed, Some ''ISO-8859-9''),
       (encoding_fixed, Some ''ISO-8859-10''),
       (encoding_fixed, Some ''ISO-8859-11''),
       (encoding_fixed, Some ''ISO-8859-12''),
       (encoding_fixed, Some ''ISO-8859-13''),
       (encoding_fixed, Some ''ISO-8859-14''),
       (encoding_fixed, Some ''ISO-8859-15''),
       (encoding_reserved, None),
       (encoding_reserved, None),
       (encoding_reserved, None),
       (encoding_reserved, None),
       (encoding_variable, Some ''ISO-8859-%d''),
       (encoding_fixed, Some ''ISO-10646/UCS2''),
       (encoding_fixed, Some ''KSC_5601''),
       (encoding_fixed, Some ''GB_2312-80''),
       (encoding_fixed, Some ''BIG5''),
       (encoding_fixed, Some ''ISO-10646/UTF8''),
       (encoding_reserved, None),
       (encoding_reserved, None),
       (encoding_reserved, None),
       (encoding_reserved, None),
       (encoding_reserved, None),
       (encoding_reserved, None),
       (encoding_reserved, None),
       (encoding_reserved, None),
       (encoding_reserved, None),
       (encoding_freesat, Some ''ISO-10646/UTF8'') ]
     @ replicate 224 (null_handler, None)"


section \<open>Resolving the encoding: lines 155 to 162 of \<^verbatim>\<open>convert_text\<close>\<close>

text \<open>
  The first byte selects the handler: the table entry when it is below 0x1F, the default handler
  otherwise. The result is the handler's: its log, and the charset name with the number of bytes
  the pointer was moved, or the error on which \<^verbatim>\<open>convert_text\<close> returns.
\<close>

definition resolve :: "env \<Rightarrow> string \<Rightarrow> call list \<times> (error + string \<times> nat)" where
  "resolve e s =
     (let i = (of_char (first_byte s) :: nat) in
      if i < 0x1F
      then fst (encoding ! i) (Some s # words_after_s e) (snd (encoding ! i))
      else encoding_default (Some s # words_after_s e) None)"


section \<open>The XML escaper \<^verbatim>\<open>xmlify\<close>\<close>

text \<open>
  The two static buffers \<^verbatim>\<open>buf\<close> and \<^verbatim>\<open>result\<close> hold \<^verbatim>\<open>MAX * 6\<close> bytes each.
\<close>

definition buf_size :: nat where
  "buf_size = MAX_len * 6"

definition result_size :: nat where
  "result_size = MAX_len * 6"

text \<open>
  The loop of \<^verbatim>\<open>xmlify\<close> over the bytes before the terminator: \<open>r\<close> is what has been written
  to \<^verbatim>\<open>result\<close> so far, \<open>lg\<close> the messages logged so far. The case of the forbidden bytes
  logs and falls through to the default case.
\<close>

fun xmlify_loop :: "string \<Rightarrow> string \<Rightarrow> call list \<Rightarrow> string \<times> call list" where
  "xmlify_loop [] r lg = (r, lg)"
| "xmlify_loop (b # bs) r lg =
     (if b = CHR 0x22 then xmlify_loop bs (r @ [CHR ''&'', CHR ''q'', CHR ''u'', CHR ''o'', CHR ''t'', CHR '';'']) lg
      else if b = CHR ''&'' then xmlify_loop bs (r @ [CHR ''&'', CHR ''a'', CHR ''m'', CHR ''p'', CHR '';'']) lg
      else if b = CHR ''<'' then xmlify_loop bs (r @ [CHR ''&'', CHR ''l'', CHR ''t'', CHR '';'']) lg
      else if b = CHR ''>'' then xmlify_loop bs (r @ [CHR ''&'', CHR ''g'', CHR ''t'', CHR '';'']) lg
      else if (of_char b :: nat) \<le> 0x08
            \<or> (0x0B \<le> (of_char b :: nat) \<and> (of_char b :: nat) \<le> 0x1F)
            \<or> (of_char b :: nat) = 0x7F
      then xmlify_loop bs (r @ [b]) (lg @ [Log ERROR (ForbiddenChar b)])
      else xmlify_loop bs (r @ [b]) lg)"

text \<open>
  \<^verbatim>\<open>xmlify\<close> scans \<^verbatim>\<open>strlen(s)\<close> bytes and ends \<^verbatim>\<open>result\<close> with a terminator. The
  writes are not checked against the size of \<^verbatim>\<open>result\<close>; as the written part only grows, a
  write lands behind the buffer exactly when the output and its terminator exceed that size.
  The string read lies outside \<^verbatim>\<open>result\<close>, as \<^verbatim>\<open>buf\<close> does in \<^verbatim>\<open>convert_text\<close>:
  the model returns the output as a value, and escaping an output again reads that value.
\<close>

definition xmlify :: "string \<Rightarrow> call list \<times> (error + string)" where
  "xmlify s =
     (case xmlify_loop (cstr s) [] [] of
        (r, lg) \<Rightarrow> (lg, if length r < result_size then Inr r else Inl (Undefined ResultOverrun)))"


section \<open>The pipeline \<^verbatim>\<open>convert_text\<close>\<close>

text \<open>
  The static variables: \<^verbatim>\<open>cs_old\<close>, the charset name of the last descriptor opened, and
  \<^verbatim>\<open>cd\<close>, the descriptor (null at the start), kept as the name it was opened for. \<open>calls\<close>
  is the trace of the calls made so far.
\<close>

record state =
  cs_old :: string
  cd :: "string option"
  calls :: "call list"

definition init_state :: state where
  "init_state = \<lparr>cs_old = [], cd = None, calls = []\<rparr>"

text \<open>
  The pointer \<^verbatim>\<open>s\<close> after a handler moved it by \<open>k\<close> bytes: the rest of the buffer, or
  \<open>None\<close> when it points behind the terminator that ends the buffer.
\<close>

definition advance :: "string \<Rightarrow> nat \<Rightarrow> string option" where
  "advance s k = (if k \<le> length s then Some (drop k s) else None)"

text \<open>Lines 163 to 165: the Freesat decoder replaces the string when the first byte was 0x1F.\<close>

definition decode_freesat ::
  "env \<Rightarrow> nat \<Rightarrow> string option \<Rightarrow> state \<Rightarrow> state \<times> (error + string option)" where
  "decode_freesat e i s st =
     (if i = 0x1F
      then (case s of
              None \<Rightarrow> (st, Inl (Undefined ReadPastEnd))
            | Some b \<Rightarrow>
                (st\<lparr>calls := calls st @ [FreesatHuffman b (strlen b)]\<rparr>,
                 Inr (Some (freesat_huffman_to_string e b (strlen b)))))
      else (st, Inr s))"

text \<open>
  Lines 166 to 177: when the name differs from the cached one, the descriptor is closed if there is
  one, a new one is opened, and the name is cached; a failing \<^verbatim>\<open>iconv_open\<close> logs and exits.
  The value -1 that \<^verbatim>\<open>cd\<close> holds while the process exits is not kept: the state at the
  exit has no descriptor.
\<close>

definition switch_charset :: "env \<Rightarrow> string \<Rightarrow> state \<Rightarrow> state \<times> (error + unit)" where
  "switch_charset e cs_new st =
     (if strncmp (cs_old st) cs_new 16
      then
        (let st1 = (case cd st of
                      None \<Rightarrow> st
                    | Some h \<Rightarrow> st\<lparr>cd := None, calls := calls st @ [IconvClose h]\<rparr>);
             st2 = st1\<lparr>calls := calls st1 @ [IconvOpen cs_new]\<rparr>
         in if iconv_open e cs_new
            then (st2\<lparr>cd := Some cs_new, cs_old := strncpy cs_new 16\<rparr>, Inr ())
            else (st2\<lparr>calls := calls st2 @ [Log ERROR IconvOpenFailed, Exit 1]\<rparr>,
                  Inl (UnsupportedCharset cs_new)))
      else (st, Inr ()))"

text \<open>
  Lines 179 to 186: \<^verbatim>\<open>iconv\<close> converts the \<^verbatim>\<open>strlen(s)\<close> bytes of the string into
  \<^verbatim>\<open>buf\<close>, writing at most \<^verbatim>\<open>sizeof(buf)\<close> bytes; its return value is dropped. The
  terminator is written behind the last byte, outside \<^verbatim>\<open>buf\<close> when \<^verbatim>\<open>buf\<close> is full.
  \<^verbatim>\<open>xmlify(buf)\<close> is the result.
\<close>

definition run_iconv :: "env \<Rightarrow> string option \<Rightarrow> state \<Rightarrow> state \<times> (error + string)" where
  "run_iconv e s st =
     (case s of
        None \<Rightarrow> (st, Inl (Undefined ReadPastEnd))
      | Some b \<Rightarrow>
          (case cd st of
             None \<Rightarrow> (st, Inl (Undefined NullPointer))
           | Some h \<Rightarrow>
               (let inbuf = cstr b;
                    out = take buf_size (iconv e h inbuf);
                    st1 = st\<lparr>calls := calls st @ [Iconv h inbuf]\<rparr>
                in if length out < buf_size
                   then (case xmlify out of (lg, r) \<Rightarrow> (st1\<lparr>calls := calls st1 @ lg\<rparr>, r))
                   else (st1, Inl (Undefined BufOverrun)))))"

definition convert_text :: "env \<Rightarrow> state \<Rightarrow> string \<Rightarrow> state \<times> (error + string)" where
  "convert_text e st s =
     (let i = (of_char (first_byte s) :: nat) in
      case resolve e s of
        (lg, Inl err) \<Rightarrow>
          (st\<lparr>calls := calls st @ lg\<rparr>,
           case err of UnsupportedEncoding c \<Rightarrow> Inr [] | _ \<Rightarrow> Inl err)
      | (lg, Inr (cs_new, k)) \<Rightarrow>
          (case decode_freesat e i (advance s k) (st\<lparr>calls := calls st @ lg\<rparr>) of
             (st1, Inl err) \<Rightarrow> (st1, Inl err)
           | (st1, Inr s1) \<Rightarrow>
               (case switch_charset e cs_new st1 of
                  (st2, Inl err) \<Rightarrow> (st2, Inl err)
                | (st2, Inr u) \<Rightarrow> run_iconv e s1 st2)))"


section \<open>The notions of the specification\<close>

text \<open>
  The substitution table of the specification, byte by byte, and the image of a byte sequence
  under it: the images of its bytes, in input order.
\<close>

definition entity :: "char \<Rightarrow> string" where
  "entity c =
     (if c = CHR 0x22 then ''&quot;''
      else if c = CHR ''&'' then ''&amp;''
      else if c = CHR ''<'' then ''&lt;''
      else if c = CHR ''>'' then ''&gt;''
      else [c])"

definition escape_image :: "string \<Rightarrow> string" where
  "escape_image s = concat (map entity s)"

text \<open>
  The forbidden control bytes of the specification: 0x00 to 0x08, 0x0B to 0x1F, and 0x7F; and the
  report of one to the diagnostic sink.
\<close>

definition forbidden :: "char \<Rightarrow> bool" where
  "forbidden c =
     ((of_char c :: nat) \<le> 0x08
      \<or> (0x0B \<le> (of_char c :: nat) \<and> (of_char c :: nat) \<le> 0x1F)
      \<or> (of_char c :: nat) = 0x7F)"

definition report :: "char \<Rightarrow> call" where
  "report c = Log ERROR (ForbiddenChar c)"

text \<open>The calls of a trace that open or close a descriptor of the conversion engine.\<close>

definition handle_calls :: "call list \<Rightarrow> call list" where
  "handle_calls tr =
     filter (\<lambda>c. case c of IconvOpen name \<Rightarrow> True | IconvClose name \<Rightarrow> True | _ \<Rightarrow> False) tr"

text \<open>
  The static variables agree: no descriptor and an empty cached name, as at the start, or a
  descriptor opened for the cached name, a name that fits in \<^verbatim>\<open>cs_old\<close> with its
  terminator.
\<close>

definition consistent :: "state \<Rightarrow> bool" where
  "consistent st =
     (case cd st of
        None \<Rightarrow> cs_old st = []
      | Some h \<Rightarrow> cs_old st = h \<and> CHR 0x00 \<notin> set h \<and> length h < 16)"

text \<open>
  A stand-in for the collaborators, to run the pipeline on concrete inputs: a decoder that returns
  the bytes behind the selector byte, an engine that knows every charset but ISO-8859-12, turns
  the byte 0xA4 of ISO6937 text into a dollar sign and copies everything else, and two words
  behind \<^verbatim>\<open>s\<close> that point to the strings "1" and "2".
\<close>

definition stub_env :: env where
  "stub_env =
     \<lparr>freesat_huffman_to_string = (\<lambda>src n. tl (take n src)),
      iconv_open = (\<lambda>name. name \<noteq> ''ISO-8859-12''),
      iconv = (\<lambda>name inbuf.
                 if name = ''ISO6937'' then map (\<lambda>c. if c = CHR 0xA4 then CHR ''$'' else c) inbuf
                 else inbuf),
      words_after_s = [Some ''1'', Some ''2'']\<rparr>"


section \<open>The XML escaper\<close>

subsection \<open>C strings\<close>

lemma cstr_no_nul: "CHR 0x00 \<notin> set s \<Longrightarrow> cstr s = s"
  by (auto simp: cstr_def)

lemma cstr_nul_free: "CHR 0x00 \<notin> set (cstr s)"
  unfolding cstr_def by (induction s) auto

lemma cstr_append_nul_free:
  "CHR 0x00 \<notin> set pre \<Longrightarrow> cstr (pre @ post) = pre @ cstr post"
  by (induction pre) (auto simp: cstr_def)

lemma cstr_Cons: "c \<noteq> CHR 0x00 \<Longrightarrow> cstr (c # post) = c # cstr post"
  by (simp add: cstr_def)

subsection \<open>The loop computes the image and the reports\<close>

lemma forbidden_not_special:
  "forbidden c \<Longrightarrow> c \<noteq> CHR 0x22 \<and> c \<noteq> CHR ''&'' \<and> c \<noteq> CHR ''<'' \<and> c \<noteq> CHR ''>''"
  by (auto simp: forbidden_def)

lemma entity_forbidden: "forbidden c \<Longrightarrow> entity c = [c]"
  using forbidden_not_special [of c] by (simp add: entity_def)

lemma xmlify_loop_eq:
  "xmlify_loop s r lg = (r @ escape_image s, lg @ map report (filter forbidden s))"
proof (induction s arbitrary: r lg)
  case Nil
  show ?case by (simp add: escape_image_def)
next
  case (Cons b bs)
  show ?case
    using forbidden_not_special [of b]
    by (simp add: Cons.IH escape_image_def entity_def report_def forbidden_def)
qed

lemma xmlify_eq:
  "xmlify s =
     (map report (filter forbidden (cstr s)),
      if length (escape_image (cstr s)) < result_size then Inr (escape_image (cstr s))
      else Inl (Undefined ResultOverrun))"
  by (simp add: xmlify_def xmlify_loop_eq)

lemma escape_image_quotes:
  "escape_image (replicate n (CHR 0x22)) = concat (replicate n ''&quot;'')"
  by (induction n) (simp_all add: escape_image_def entity_def)

lemma length_concat_replicate: "length (concat (replicate n xs)) = n * length xs"
  by (induction n) simp_all

lemma cstr_quotes: "cstr (replicate n (CHR 0x22)) = replicate n (CHR 0x22)"
  by (rule cstr_no_nul) simp

text \<open>
  C1, as amended. For every byte sequence without a 0x00 byte whose image is shorter than the
  result buffer (at most 6143 bytes), \<^verbatim>\<open>xmlify\<close> returns the byte-wise left-to-right image of
  the input: the double quote, the ampersand, the less-than and the greater-than sign replaced by
  the bytes of their entities, every other byte copied.
\<close>

theorem xmlify_image:
  assumes "CHR 0x00 \<notin> set s" and "length (escape_image s) < result_size"
  shows "snd (xmlify s) = Inr (escape_image s)"
  using assms by (simp add: xmlify_eq cstr_no_nul)

text \<open>The scenario of the specification: the bytes of \<open><3>\<close> escape to \<open>&lt;3&gt;\<close>.\<close>

theorem xmlify_image_witness:
  "CHR 0x00 \<notin> set ''<3>'' \<and> length (escape_image ''<3>'') < result_size
   \<and> snd (xmlify ''<3>'') = Inr ''&lt;3&gt;''"
  using xmlify_image [of "''<3>''"]
  by (simp add: escape_image_def entity_def result_size_def MAX_len_def)

text \<open>
  C1 as stated fails on a byte sequence with a 0x00 byte, where the scan stops: of the bytes
  \<open>A\<close>, 0x00, \<open>B\<close>, whose image is the three bytes themselves, only \<open>A\<close> is returned. It
  also fails when the image does not fit: 1024 double quotes give 6144 bytes, and the terminator is
  written behind \<^verbatim>\<open>result\<close>.
\<close>

theorem xmlify_image_counterexample:
  "snd (xmlify [CHR ''A'', CHR 0x00, CHR ''B'']) = Inr ''A''
   \<and> escape_image [CHR ''A'', CHR 0x00, CHR ''B''] = [CHR ''A'', CHR 0x00, CHR ''B'']
   \<and> snd (xmlify (replicate 1024 (CHR 0x22))) = Inl (Undefined ResultOverrun)"
  by (simp add: xmlify_eq cstr_quotes escape_image_quotes length_concat_replicate
      result_size_def MAX_len_def)
   (simp add: cstr_def escape_image_def entity_def)

text \<open>
  C2, as amended. For every input and every occurrence in it of a forbidden control byte other
  than 0x00 that no 0x00 byte precedes (the image of the string fitting the result buffer),
  \<^verbatim>\<open>xmlify\<close> reports that byte, after the reports for the bytes before it and before those for
  the bytes behind it, and copies it unchanged to its place in the output, between the image of
  what precedes it and the image of what follows it.
\<close>

theorem forbidden_reported_and_copied:
  assumes "s = pre @ c # post" and "CHR 0x00 \<notin> set pre" and "c \<noteq> CHR 0x00"
    and "forbidden c" and "length (escape_image (cstr s)) < result_size"
  shows "xmlify s =
           (map report (filter forbidden pre) @ report c # map report (filter forbidden (cstr post)),
            Inr (escape_image pre @ c # escape_image (cstr post)))"
proof -
  have "cstr s = pre @ c # cstr post"
    using assms(1-3) by (simp add: cstr_append_nul_free cstr_Cons)
  moreover have "escape_image (pre @ c # cstr post) = escape_image pre @ c # escape_image (cstr post)"
    using entity_forbidden [OF assms(4)] by (simp add: escape_image_def)
  ultimately show ?thesis
    using assms(4,5) by (simp add: xmlify_eq)
qed

theorem forbidden_reported_and_copied_witness:
  "xmlify [CHR ''a'', CHR 0x07, CHR ''<'', CHR 0x7F] =
     ([Log ERROR (ForbiddenChar (CHR 0x07)), Log ERROR (ForbiddenChar (CHR 0x7F))],
      Inr [CHR ''a'', CHR 0x07, CHR ''&'', CHR ''l'', CHR ''t'', CHR '';'', CHR 0x7F])"
  using forbidden_reported_and_copied
    [of "[CHR ''a'', CHR 0x07, CHR ''<'', CHR 0x7F]" "[CHR ''a'']" "CHR 0x07" "[CHR ''<'', CHR 0x7F]"]
  by (simp add: cstr_def escape_image_def entity_def forbidden_def report_def
      result_size_def MAX_len_def)

text \<open>
  C2 as stated fails for the forbidden byte 0x00: in the bytes 0x01, 0x00, 0x02 it is neither
  reported nor copied, and neither is the forbidden byte behind it.
\<close>

theorem forbidden_nul_counterexample:
  "forbidden (CHR 0x00)
   \<and> xmlify [CHR 0x01, CHR 0x00, CHR 0x02] = ([Log ERROR (ForbiddenChar (CHR 0x01))], Inr [CHR 0x01])"
  by (simp add: xmlify_def cstr_def forbidden_def result_size_def MAX_len_def)

subsection \<open>Escaping twice\<close>

lemma escape_image_nul_free: "CHR 0x00 \<notin> set t \<Longrightarrow> CHR 0x00 \<notin> set (escape_image t)"
  by (induction t) (auto simp: escape_image_def entity_def)

lemma length_entity: "1 \<le> length (entity c)"
  by (simp add: entity_def)

lemma length_escape_image: "length t \<le> length (escape_image t)"
proof (induction t)
  case Nil
  show ?case by (simp add: escape_image_def)
next
  case (Cons c t)
  then show ?case
    using length_entity [of c] by (simp add: escape_image_def)
qed

lemma length_escape_image_amp:
  "CHR ''&'' \<in> set t \<Longrightarrow> length t < length (escape_image t)"
proof (induction t)
  case Nil
  then show ?case by simp
next
  case (Cons c t)
  show ?case
  proof (cases "c = CHR ''&''")
    case True
    then show ?thesis
      using length_escape_image [of t] by (simp add: escape_image_def entity_def)
  next
    case False
    with Cons have "length t < length (escape_image t)" by simp
    then show ?thesis
      using length_entity [of c] by (simp add: escape_image_def)
  qed
qed

lemma escape_image_keeps_amp:
  "CHR ''&'' \<in> set t \<Longrightarrow> CHR ''&'' \<in> set (escape_image t)"
  by (induction t) (auto simp: escape_image_def entity_def)

text \<open>
  C10. \<^verbatim>\<open>xmlify\<close> is not idempotent: for every string with an ampersand that it escapes, escaping
  the output again does not give the output back. The ampersand of each entity is escaped once
  more, so the second pass gives a longer string, or one that no longer fits the result buffer.
\<close>

theorem xmlify_not_idempotent:
  assumes "CHR ''&'' \<in> set (cstr s)" and "snd (xmlify s) = Inr out"
  shows "snd (xmlify out) \<noteq> Inr out"
proof -
  have out: "out = escape_image (cstr s)"
    using assms(2) by (simp add: xmlify_eq split: if_splits)
  have "CHR 0x00 \<notin> set out"
    unfolding out by (rule escape_image_nul_free) (rule cstr_nul_free)
  then have "cstr out = out"
    by (rule cstr_no_nul)
  moreover have "CHR ''&'' \<in> set out"
    unfolding out using assms(1) by (rule escape_image_keeps_amp)
  then have "length out < length (escape_image out)"
    by (rule length_escape_image_amp)
  ultimately show ?thesis
    by (auto simp: xmlify_eq)
qed

theorem xmlify_not_idempotent_witness:
  "CHR ''&'' \<in> set (cstr ''&'') \<and> snd (xmlify ''&'') = Inr ''&amp;''
   \<and> snd (xmlify ''&amp;'') = Inr ''&amp;amp;'' \<and> snd (xmlify ''&amp;'') \<noteq> Inr ''&amp;''"
  using xmlify_not_idempotent [of "''&''" "''&amp;''"]
  by (simp add: xmlify_def cstr_def result_size_def MAX_len_def)


section \<open>The encoding table\<close>

subsection \<open>The slots and what resolution returns for them\<close>

lemma strncpy_name: "CHR 0x00 \<notin> set d \<Longrightarrow> length d \<le> n \<Longrightarrow> strncpy d n = d"
proof -
  assume a: "CHR 0x00 \<notin> set d" and b: "length d \<le> n"
  from a have tw: "cstr d = d" by (rule cstr_no_nul)
  show ?thesis unfolding strncpy_def tw using b by simp
qed

lemma resolve_default:
  "0x1F \<le> (of_char (first_byte s) :: nat) \<Longrightarrow> resolve e s = ([], Inr (''ISO6937'', 0))"
  by (simp add: resolve_def encoding_default_def iso6937_encoding_def strncpy_def cstr_def)

lemma encoding_reserved_slots:
  assumes "i = 0 \<or> 12 \<le> i \<and> i \<le> 15 \<or> 22 \<le> i \<and> i \<le> 30"
  shows "encoding ! i = (encoding_reserved, None)"
proof -
  from assms have "i \<in> {0, 12, 13, 14, 15, 22, 23, 24, 25, 26, 27, 28, 29, 30}"
    by simp arith
  then show ?thesis
    by (auto simp: encoding_def)
qed

lemma encoding_fixed_slots:
  assumes "1 \<le> i \<and> i \<le> 11 \<or> 17 \<le> i \<and> i \<le> 21"
  shows "\<exists>name. encoding ! i = (encoding_fixed, Some name)
           \<and> CHR 0x00 \<notin> set name \<and> name \<noteq> [] \<and> length name < 16"
proof -
  from assms have "i \<in> {1, 2, 3, 4, 5, 6, 7, 8, 9, 10, 11, 17, 18, 19, 20, 21}"
    by simp arith
  then show ?thesis
    by (auto simp: encoding_def)
qed

lemma encoding_variable_slot: "encoding ! 16 = (encoding_variable, Some ''ISO-8859-%d'')"
  by (simp add: encoding_def)

lemma slot_cases:
  assumes "(i::nat) < 0x1F"
  obtains "i = 0 \<or> 12 \<le> i \<and> i \<le> 15 \<or> 22 \<le> i \<and> i \<le> 30"
  | "1 \<le> i \<and> i \<le> 11 \<or> 17 \<le> i \<and> i \<le> 21"
  | "i = 16"
  using assms by fastforce

lemma resolve_reserved:
  assumes "n = (of_char (first_byte s) :: nat)"
    and "n = 0 \<or> 12 \<le> n \<and> n \<le> 15 \<or> 22 \<le> n \<and> n \<le> 30"
  shows "resolve e s =
           ([Log WARNING (ReservedEncoding (first_byte s))], Inl (UnsupportedEncoding (first_byte s)))"
proof -
  have "n < 0x1F" using assms(2) by auto
  moreover have "encoding ! n = (encoding_reserved, None)"
    using assms(2) by (rule encoding_reserved_slots)
  ultimately show ?thesis
    using assms(1) by (simp add: resolve_def encoding_reserved_def deref_def)
qed

lemma resolve_fixed:
  assumes "n = (of_char (first_byte s) :: nat)"
    and "1 \<le> n \<and> n \<le> 11 \<or> 17 \<le> n \<and> n \<le> 21"
  shows "\<exists>name. encoding ! n = (encoding_fixed, Some name) \<and> resolve e s = ([], Inr (name, 1))
           \<and> CHR 0x00 \<notin> set name \<and> name \<noteq> [] \<and> length name < 16"
proof -
  have lt: "n < 0x1F" using assms(2) by auto
  obtain name where nm: "encoding ! n = (encoding_fixed, Some name)"
    "CHR 0x00 \<notin> set name" "length name < 16" "name \<noteq> []"
    using encoding_fixed_slots [OF assms(2)] by blast
  have "strncpy name 16 = name"
    using nm(2,3) by (simp add: strncpy_name)
  then have "resolve e s = ([], Inr (name, 1))"
    using lt nm(1) assms(1) by (simp add: resolve_def encoding_fixed_def)
  with nm show ?thesis by blast
qed

lemma resolve_variable:
  assumes "(of_char (first_byte s) :: nat) = 16"
  shows "resolve e s = encoding_variable (Some s # words_after_s e) (Some ''ISO-8859-%d'')"
  using assms by (simp add: resolve_def encoding_variable_slot)

subsection \<open>The names the variable handler prints\<close>

lemma digit_nul_free: "i < 10 \<Longrightarrow> ''0123456789'' ! i \<noteq> CHR 0x00"
proof -
  assume "i < 10"
  then have "i \<in> {0, 1, 2, 3, 4, 5, 6, 7, 8, 9}" by simp arith
  then show ?thesis by auto
qed

lemma digits_nul_free: "CHR 0x00 \<notin> set (digits i)"
proof (induction i rule: digits.induct)
  case (1 i)
  show ?case
  proof (cases "i < 10")
    case True
    then show ?thesis
      using digit_nul_free [of i] by (subst digits.simps) simp
  next
    case False
    then show ?thesis
      using "1.IH" digit_nul_free [of "i mod 10"] by (subst digits.simps) simp
  qed
qed

lemma variable_name:
  "snprintf 16 ''ISO-8859-%d'' i = take 15 (''ISO-8859-'' @ digits i)"
  by (simp add: snprintf_def cstr_def)

lemma variable_name_ok:
  "CHR 0x00 \<notin> set (snprintf 16 ''ISO-8859-%d'' i) \<and> snprintf 16 ''ISO-8859-%d'' i \<noteq> []
   \<and> length (snprintf 16 ''ISO-8859-%d'' i) < 16"
proof -
  have "set (take 15 (''ISO-8859-'' @ digits i)) \<subseteq> set (''ISO-8859-'' @ digits i)"
    by (rule set_take_subset)
  moreover have "CHR 0x00 \<notin> set (''ISO-8859-'' @ digits i)"
    using digits_nul_free [of i] by simp
  ultimately have "CHR 0x00 \<notin> set (take 15 (''ISO-8859-'' @ digits i))"
    by blast
  then show ?thesis
    by (simp add: variable_name)
qed

text \<open>
  Whenever resolution yields a charset, nothing was logged, the name is a proper string that fits
  in \<^verbatim>\<open>cs_new\<close> with its terminator, and a first byte 0x1F left the pointer where it was.
\<close>

lemma resolve_Inr:
  assumes "resolve e s = (lg, Inr (name, k))"
  shows "lg = [] \<and> CHR 0x00 \<notin> set name \<and> name \<noteq> [] \<and> length name < 16
         \<and> ((of_char (first_byte s) :: nat) = 0x1F \<longrightarrow> k = 0)"
proof (cases "(of_char (first_byte s) :: nat) < 0x1F")
  case False
  then have "resolve e s = ([], Inr (''ISO6937'', 0))"
    by (simp add: resolve_default)
  with assms show ?thesis by auto
next
  case True
  then show ?thesis
  proof (cases rule: slot_cases)
    case 1
    from resolve_reserved [OF refl 1, of e] assms show ?thesis by simp
  next
    case 2
    from resolve_fixed [OF refl 2, of e] assms True show ?thesis by auto
  next
    case 3
    then have "resolve e s = encoding_variable (Some s # words_after_s e) (Some ''ISO-8859-%d'')"
      by (rule resolve_variable)
    with assms 3 show ?thesis
      using variable_name_ok
      by (auto simp: encoding_variable_def split: sum.splits)
  qed
qed

text \<open>No field makes resolution fail with \<open>InvalidInput\<close>.\<close>

lemma resolve_not_InvalidInput: "snd (resolve e s) \<noteq> Inl InvalidInput"
proof (cases "(of_char (first_byte s) :: nat) < 0x1F")
  case False
  then show ?thesis by (simp add: resolve_default)
next
  case True
  then show ?thesis
  proof (cases rule: slot_cases)
    case 1
    from resolve_reserved [OF refl 1, of e] show ?thesis by simp
  next
    case 2
    from resolve_fixed [OF refl 2, of e] show ?thesis by auto
  next
    case 3
    then have "resolve e s = encoding_variable (Some s # words_after_s e) (Some ''ISO-8859-%d'')"
      by (rule resolve_variable)
    then show ?thesis
      by (auto simp: encoding_variable_def deref_def split: sum.splits option.splits)
  qed
qed

text \<open>
  The variable handler reads \<^verbatim>\<open>*s[1]\<close> and \<^verbatim>\<open>*s[2]\<close>, the first bytes of what the two
  words behind the caller's pointer point to: the bytes behind the selector byte do not matter.
\<close>

lemma deref_behind: "0 < k \<Longrightarrow> deref (x # w) k = deref (y # w) k"
  by (cases k) (simp_all add: deref_def)

lemma encoding_variable_ignores_s: "encoding_variable (x # w) d = encoding_variable (y # w) d"
proof -
  have "deref (x # w) 1 = deref (y # w) 1" and "deref (x # w) 2 = deref (y # w) 2"
    by (simp_all add: deref_behind [of _ x w y])
  then show ?thesis
    unfolding encoding_variable_def by (simp only:)
qed

lemma variable_charset_ignores_field:
  "resolve e (CHR 0x10 # rest) = resolve e [CHR 0x10]"
  by (simp add: resolve_def first_byte_def encoding_variable_slot
      encoding_variable_ignores_s [of "Some (CHR 0x10 # rest)" _ _ "Some [CHR 0x10]"])

text \<open>
  C5 holds for the intended index \<^verbatim>\<open>(*s)[1] << 8 | (*s)[2]\<close> only. On the bytes 0x10, 0x00,
  0x05, \<open>A\<close> the code moves the pointer by 3 bytes, but the number it prints comes from the
  words behind \<^verbatim>\<open>s\<close>: 0x31 * 256 + 0x32 = 12594 when they point to "1" and "2", and nothing
  defined when they are no pointers. The name is not ISO-8859-5.
\<close>

theorem variable_charset_reads_words_after_s:
  "resolve stub_env [CHR 0x10, CHR 0x00, CHR 0x05, CHR ''A''] = ([], Inr (''ISO-8859-12594'', 3))
   \<and> resolve (stub_env\<lparr>words_after_s := [None, None]\<rparr>) [CHR 0x10, CHR 0x00, CHR 0x05, CHR ''A'']
       = ([], Inl (Undefined WildPointer))"
  by (simp add: resolve_def first_byte_def encoding_def encoding_variable_def deref_def
      stub_env_def snprintf_def cstr_def digits.simps)


section \<open>The pipeline\<close>

subsection \<open>The steps\<close>

lemma handle_calls_append: "handle_calls (a @ b) = handle_calls a @ handle_calls b"
  by (simp add: handle_calls_def)

lemma handle_calls_reports: "handle_calls (map report cs) = []"
  by (induction cs) (simp_all add: handle_calls_def report_def)

lemma handle_calls_Iconv: "handle_calls (Iconv h b # tr) = handle_calls tr"
  by (simp add: handle_calls_def)

lemma handle_calls_FreesatHuffman: "handle_calls (FreesatHuffman b n # tr) = handle_calls tr"
  by (simp add: handle_calls_def)

lemma handle_calls_switch:
  "handle_calls
     ((case c of None \<Rightarrow> [] | Some h \<Rightarrow> [IconvClose h]) @ [IconvOpen name]
      @ (if ok then [] else [Log ERROR IconvOpenFailed, Exit 1])) =
   (case c of None \<Rightarrow> [] | Some h \<Rightarrow> [IconvClose h]) @ [IconvOpen name]"
  by (simp add: handle_calls_def split: option.splits)

lemma decode_freesat_eq:
  assumes "i = 0x1F \<longrightarrow> k = 0"
  shows "decode_freesat e i (advance s k) st =
           (if i = 0x1F
            then (st\<lparr>calls := calls st @ [FreesatHuffman s (strlen s)]\<rparr>,
                  Inr (Some (freesat_huffman_to_string e s (strlen s))))
            else (st, Inr (advance s k)))"
  using assms by (simp add: decode_freesat_def advance_def)

lemma strncmp_names:
  assumes "CHR 0x00 \<notin> set a" and "length a < 16" and "CHR 0x00 \<notin> set b" and "length b < 16"
  shows "strncmp a b 16 = (a \<noteq> b)"
  using assms by (simp add: strncmp_def cstr_no_nul)

lemma strncmp_consistent:
  assumes "consistent st" and "CHR 0x00 \<notin> set name" and "length name < 16"
  shows "strncmp (cs_old st) name 16 = (cs_old st \<noteq> name)"
proof -
  have "CHR 0x00 \<notin> set (cs_old st) \<and> length (cs_old st) < 16"
    using assms(1) by (auto simp: consistent_def split: option.splits)
  then show ?thesis
    using assms(2,3) by (simp add: strncmp_names)
qed

lemma switch_charset_calls:
  "calls (fst (switch_charset e name st)) =
     calls st @
     (if strncmp (cs_old st) name 16
      then (case cd st of None \<Rightarrow> [] | Some h \<Rightarrow> [IconvClose h]) @ [IconvOpen name]
           @ (if iconv_open e name then [] else [Log ERROR IconvOpenFailed, Exit 1])
      else [])"
  by (simp add: switch_charset_def Let_def split: option.splits)

lemma switch_charset_cs_old:
  "cs_old (fst (switch_charset e name st)) =
     (if strncmp (cs_old st) name 16 \<and> iconv_open e name then strncpy name 16 else cs_old st)"
  by (simp add: switch_charset_def Let_def split: option.splits)

lemma switch_charset_cd:
  "cd (fst (switch_charset e name st)) =
     (if strncmp (cs_old st) name 16 then (if iconv_open e name then Some name else None)
      else cd st)"
  by (simp add: switch_charset_def Let_def split: option.splits)

lemma switch_charset_result:
  "snd (switch_charset e name st) =
     (if strncmp (cs_old st) name 16 \<and> \<not> iconv_open e name then Inl (UnsupportedCharset name)
      else Inr ())"
  by (simp add: switch_charset_def Let_def split: option.splits)

lemma run_iconv_calls:
  "\<exists>ev. calls (fst (run_iconv e s st)) = calls st @ ev \<and> handle_calls ev = []"
proof (cases s)
  case None
  then show ?thesis by (simp add: run_iconv_def handle_calls_def)
next
  case (Some b)
  show ?thesis
  proof (cases "cd st")
    case None
    with Some show ?thesis by (simp add: run_iconv_def handle_calls_def)
  next
    case (Some h)
    let ?out = "take buf_size (iconv e h (cstr b))"
    show ?thesis
    proof (cases "length ?out < buf_size")
      case True
      have "calls (fst (run_iconv e s st)) =
              calls st @ (Iconv h (cstr b) # map report (filter forbidden (cstr ?out)))"
        using \<open>s = Some b\<close> Some True
        by (simp add: run_iconv_def Let_def xmlify_eq del: length_take)
      moreover have "handle_calls (Iconv h (cstr b) # map report (filter forbidden (cstr ?out))) = []"
        by (simp add: handle_calls_Iconv handle_calls_reports)
      ultimately show ?thesis by blast
    next
      case False
      have "calls (fst (run_iconv e s st)) = calls st @ [Iconv h (cstr b)]"
        using \<open>s = Some b\<close> Some False
        by (simp add: run_iconv_def Let_def del: length_take)
      moreover have "handle_calls [Iconv h (cstr b)] = []"
        by (simp add: handle_calls_def)
      ultimately show ?thesis by blast
    qed
  qed
qed

lemma run_iconv_Iconv:
  assumes "cd st = Some h"
  shows "Iconv h (cstr b) \<in> set (calls (fst (run_iconv e (Some b) st)))"
  using assms by (simp add: run_iconv_def Let_def split: prod.splits)

lemma run_iconv_static:
  "cs_old (fst (run_iconv e s st)) = cs_old st \<and> cd (fst (run_iconv e s st)) = cd st"
  by (simp add: run_iconv_def Let_def xmlify_eq split: option.splits)

lemma consistent_calls: "consistent (st\<lparr>calls := tr\<rparr>) = consistent st"
  by (simp add: consistent_def split: option.splits)

lemma consistent_init: "consistent init_state"
  by (simp add: consistent_def init_state_def)

lemma consistent_same_name:
  assumes "consistent st" and "cs_old st = name" and "name \<noteq> []"
  shows "cd st = Some name"
  using assms by (auto simp: consistent_def split: option.splits)

text \<open>
  The pipeline on a field whose encoding resolves: the decoder when the first byte is 0x1F, the
  choice of the descriptor, and the conversion unless the process has exited.
\<close>

lemma convert_text_resolved:
  assumes "resolve e s = (lg, Inr (name, k))"
  shows "convert_text e st s =
     (let i = (of_char (first_byte s) :: nat);
          st1 = (if i = 0x1F then st\<lparr>calls := calls st @ [FreesatHuffman s (strlen s)]\<rparr> else st);
          s1 = (if i = 0x1F then Some (freesat_huffman_to_string e s (strlen s)) else advance s k);
          st2 = fst (switch_charset e name st1)
      in if strncmp (cs_old st) name 16 \<and> \<not> iconv_open e name
         then (st2, Inl (UnsupportedCharset name))
         else run_iconv e s1 st2)"
proof -
  from resolve_Inr [OF assms] have lg: "lg = []"
    and k: "(of_char (first_byte s) :: nat) = 0x1F \<longrightarrow> k = 0" by simp_all
  let ?i = "of_char (first_byte s) :: nat"
  let ?st1 = "if ?i = 0x1F then st\<lparr>calls := calls st @ [FreesatHuffman s (strlen s)]\<rparr> else st"
  let ?s1 = "if ?i = 0x1F then Some (freesat_huffman_to_string e s (strlen s)) else advance s k"
  have dec: "decode_freesat e ?i (advance s k) st = (?st1, Inr ?s1)"
    by (simp add: decode_freesat_eq [OF k])
  obtain st2 r where sw: "switch_charset e name ?st1 = (st2, r)"
    by (cases "switch_charset e name ?st1")
  have old: "cs_old ?st1 = cs_old st" by simp
  have r: "r = (if strncmp (cs_old st) name 16 \<and> \<not> iconv_open e name
                then Inl (UnsupportedCharset name) else Inr ())"
    using switch_charset_result [of e name ?st1] unfolding sw old by simp
  have "convert_text e st s =
          (case r of Inl err \<Rightarrow> (st2, Inl err) | Inr u \<Rightarrow> run_iconv e ?s1 st2)"
    unfolding convert_text_def Let_def assms lg using dec sw by simp
  then show ?thesis
    unfolding Let_def sw r by (simp split: if_splits)
qed

subsection \<open>The default charset\<close>

text \<open>
  C4. For every input whose first byte is at least 0x1F, resolution returns the default charset
  ISO6937 and moves the pointer by 0 bytes. This includes the first byte 0x1F: its table slot,
  the Freesat handler, is never looked up. The first byte stays part of the content: the whole
  field is what the decoder is given when the byte is 0x1F, and what \<^verbatim>\<open>iconv\<close> is given
  otherwise (on a descriptor for ISO6937, when the engine opens one).
\<close>

theorem default_charset:
  assumes "0x1F \<le> (of_char b0 :: nat)"
  shows "resolve e (b0 # rest) = ([], Inr (''ISO6937'', 0))
         \<and> encoding ! 0x1F = (encoding_freesat, Some ''ISO-10646/UTF8'')
         \<and> (if (of_char b0 :: nat) = 0x1F
             then FreesatHuffman (b0 # rest) (strlen (b0 # rest))
                    \<in> set (calls (fst (convert_text e st (b0 # rest))))
             else consistent st \<and> iconv_open e ''ISO6937'' \<longrightarrow>
                  Iconv ''ISO6937'' (cstr (b0 # rest))
                    \<in> set (calls (fst (convert_text e st (b0 # rest)))))"
proof -
  let ?s = "b0 # rest"
  have fb: "(of_char (first_byte ?s) :: nat) = of_char b0"
    by (simp add: first_byte_def)
  have res: "resolve e ?s = ([], Inr (''ISO6937'', 0))"
    using assms by (simp add: resolve_default fb)
  have slot: "encoding ! 0x1F = (encoding_freesat, Some ''ISO-10646/UTF8'')"
    by (simp add: encoding_def)
  have content: "if (of_char b0 :: nat) = 0x1F
             then FreesatHuffman ?s (strlen ?s) \<in> set (calls (fst (convert_text e st ?s)))
             else consistent st \<and> iconv_open e ''ISO6937'' \<longrightarrow>
                  Iconv ''ISO6937'' (cstr ?s) \<in> set (calls (fst (convert_text e st ?s)))"
  proof (cases "(of_char b0 :: nat) = 0x1F")
    case True
    let ?st1 = "st\<lparr>calls := calls st @ [FreesatHuffman ?s (strlen ?s)]\<rparr>"
    let ?st2 = "fst (switch_charset e ''ISO6937'' ?st1)"
    let ?u = "freesat_huffman_to_string e ?s (strlen ?s)"
    have in2: "FreesatHuffman ?s (strlen ?s) \<in> set (calls ?st2)"
      by (simp add: switch_charset_calls)
    obtain ev where "calls (fst (run_iconv e (Some ?u) ?st2)) = calls ?st2 @ ev"
      using run_iconv_calls [of e "Some ?u" ?st2] by blast
    with in2 have "FreesatHuffman ?s (strlen ?s) \<in> set (calls (fst (run_iconv e (Some ?u) ?st2)))"
      by simp
    with in2 have "FreesatHuffman ?s (strlen ?s) \<in> set (calls (fst (convert_text e st ?s)))"
      using True by (simp add: convert_text_resolved [OF res] fb Let_def)
    with True show ?thesis by simp
  next
    case False
    have "Iconv ''ISO6937'' (cstr ?s) \<in> set (calls (fst (convert_text e st ?s)))"
      if a: "consistent st" and b: "iconv_open e ''ISO6937''"
    proof -
      let ?st2 = "fst (switch_charset e ''ISO6937'' st)"
      have cmp: "strncmp (cs_old st) ''ISO6937'' 16 = (cs_old st \<noteq> ''ISO6937'')"
        using a by (simp add: strncmp_consistent)
      have cd2: "cd ?st2 = Some ''ISO6937''"
        using b consistent_same_name [OF a, of "''ISO6937''"]
        by (simp add: switch_charset_cd cmp)
      have "convert_text e st ?s = run_iconv e (Some ?s) ?st2"
        using b False by (simp add: convert_text_resolved [OF res] fb Let_def advance_def)
      then show ?thesis
        using run_iconv_Iconv [OF cd2] by simp
    qed
    with False show ?thesis by simp
  qed
  from res slot content show ?thesis by simp
qed

theorem default_charset_witness:
  "resolve stub_env [CHR 0x1F, CHR ''x''] = ([], Inr (''ISO6937'', 0))
   \<and> resolve stub_env [CHR 0xE9, CHR ''x''] = ([], Inr (''ISO6937'', 0))
   \<and> FreesatHuffman [CHR 0x1F, CHR ''x''] 2
         \<in> set (calls (fst (convert_text stub_env init_state [CHR 0x1F, CHR ''x''])))
   \<and> Iconv ''ISO6937'' [CHR 0xE9, CHR ''x'']
         \<in> set (calls (fst (convert_text stub_env init_state [CHR 0xE9, CHR ''x''])))"
proof -
  have a: "consistent init_state \<and> iconv_open stub_env ''ISO6937''"
    by (simp add: consistent_init stub_env_def)
  have b: "strlen [CHR 0x1F, CHR ''x''] = 2" and c: "cstr [CHR 0xE9, CHR ''x''] = [CHR 0xE9, CHR ''x'']"
    by (simp_all add: strlen_def cstr_def)
  show ?thesis
    using default_charset [of "CHR 0x1F" stub_env "''x''" init_state]
      default_charset [of "CHR 0xE9" stub_env "''x''" init_state] a
    unfolding b c by simp
qed

subsection \<open>The descriptor and the cached name\<close>

lemma convert_text_cache:
  assumes "consistent st" and "resolve e s = (lg, Inr (name, k))"
  shows "(\<exists>new. calls (fst (convert_text e st s)) = calls st @ new
            \<and> handle_calls new =
                (if cs_old st = name then []
                 else (case cd st of None \<Rightarrow> [] | Some h \<Rightarrow> [IconvClose h]) @ [IconvOpen name]))
         \<and> cs_old (fst (convert_text e st s)) =
             (if cs_old st = name \<or> iconv_open e name then name else cs_old st)
         \<and> cd (fst (convert_text e st s)) =
             (if cs_old st = name \<or> iconv_open e name then Some name else None)
         \<and> snd (convert_text e st s) \<noteq> Inl (UnsupportedCharset name) =
             (cs_old st = name \<or> iconv_open e name)"
proof -
  from resolve_Inr [OF assms(2)]
  have name: "CHR 0x00 \<notin> set name" "name \<noteq> []" "length name < 16"
    by simp_all
  have cmp: "strncmp (cs_old st) name 16 = (cs_old st \<noteq> name)"
    using assms(1) name by (simp add: strncmp_consistent)
  have cpy: "strncpy name 16 = name"
    using name by (simp add: strncpy_name)
  let ?i = "of_char (first_byte s) :: nat"
  let ?pre = "if ?i = 0x1F then [FreesatHuffman s (strlen s)] else []"
  let ?st1 = "if ?i = 0x1F then st\<lparr>calls := calls st @ [FreesatHuffman s (strlen s)]\<rparr> else st"
  let ?s1 = "if ?i = 0x1F then Some (freesat_huffman_to_string e s (strlen s)) else advance s k"
  let ?st2 = "fst (switch_charset e name ?st1)"
  let ?sw = "if cs_old st \<noteq> name
             then (case cd st of None \<Rightarrow> [] | Some h \<Rightarrow> [IconvClose h]) @ [IconvOpen name]
                  @ (if iconv_open e name then [] else [Log ERROR IconvOpenFailed, Exit 1])
             else []"
  have st1: "cs_old ?st1 = cs_old st" "cd ?st1 = cd st" "calls ?st1 = calls st @ ?pre"
    by simp_all
  have calls2: "calls ?st2 = calls st @ ?pre @ ?sw"
    unfolding switch_charset_calls st1 cmp by simp
  have old2: "cs_old ?st2 = (if cs_old st = name \<or> iconv_open e name then name else cs_old st)"
    unfolding switch_charset_cs_old st1 cmp cpy by auto
  have cd2: "cd ?st2 = (if cs_old st = name \<or> iconv_open e name then Some name else None)"
    unfolding switch_charset_cd st1 cmp
    using consistent_same_name [OF assms(1) _ name(2)] by auto
  have hc: "handle_calls (?pre @ ?sw) =
              (if cs_old st = name then []
               else (case cd st of None \<Rightarrow> [] | Some h \<Rightarrow> [IconvClose h]) @ [IconvOpen name])"
    using handle_calls_switch [of "cd st" name "iconv_open e name"]
    by (simp add: handle_calls_append handle_calls_FreesatHuffman)
       (simp add: handle_calls_def)
  show ?thesis
  proof (cases "cs_old st \<noteq> name \<and> \<not> iconv_open e name")
    case True
    then have ct: "convert_text e st s = (?st2, Inl (UnsupportedCharset name))"
      unfolding convert_text_resolved [OF assms(2)] Let_def cmp by simp
    show ?thesis
      unfolding ct fst_conv snd_conv using calls2 hc old2 cd2 True by auto
  next
    case False
    then have ct: "convert_text e st s = run_iconv e ?s1 ?st2"
      unfolding convert_text_resolved [OF assms(2)] Let_def cmp by auto
    obtain ev where ev: "calls (fst (run_iconv e ?s1 ?st2)) = calls ?st2 @ ev"
      "handle_calls ev = []"
      using run_iconv_calls [of e ?s1 ?st2] by blast
    have "calls (fst (convert_text e st s)) = calls st @ (?pre @ ?sw @ ev)"
      unfolding ct ev(1) calls2 by simp
    moreover have "handle_calls (?pre @ ?sw @ ev) =
              (if cs_old st = name then []
               else (case cd st of None \<Rightarrow> [] | Some h \<Rightarrow> [IconvClose h]) @ [IconvOpen name])"
      using hc ev(2) by (simp add: handle_calls_append)
    moreover have "snd (run_iconv e ?s1 ?st2) \<noteq> Inl (UnsupportedCharset name)"
      by (auto simp: run_iconv_def Let_def xmlify_eq split: option.splits)
    ultimately show ?thesis
      unfolding ct using run_iconv_static [of e ?s1 ?st2] old2 cd2 False by auto
  qed
qed

text \<open>
  The static variables agree at the start, and they agree after every call of the pipeline that
  returns.
\<close>

lemma convert_text_consistent:
  assumes "consistent st" and "\<forall>name. snd (convert_text e st s) \<noteq> Inl (UnsupportedCharset name)"
  shows "consistent (fst (convert_text e st s))"
proof (cases "resolve e s")
  case (Pair lg r)
  show ?thesis
  proof (cases r)
    case (Inl err)
    with Pair have "fst (convert_text e st s) = st\<lparr>calls := calls st @ lg\<rparr>"
      by (simp add: convert_text_def)
    then show ?thesis
      using assms(1) by (simp add: consistent_calls)
  next
    case (Inr p)
    obtain name k where p: "p = (name, k)" by (cases p)
    have res: "resolve e s = (lg, Inr (name, k))"
      using Pair Inr p by simp
    from resolve_Inr [OF res] have name: "CHR 0x00 \<notin> set name" "length name < 16"
      by simp_all
    from convert_text_cache [OF assms(1) res] assms(2)
    have "cs_old (fst (convert_text e st s)) = name \<and> cd (fst (convert_text e st s)) = Some name"
      by auto
    then show ?thesis
      using name by (simp add: consistent_def)
  qed
qed

text \<open>
  C9. On a field whose encoding resolves to a charset name, with the static variables in
  agreement: when the name is the cached one, the pipeline neither closes nor opens a descriptor
  and keeps the descriptor and the cached name; when the name differs, it closes the descriptor
  if there is one and then opens a new one, once; the cached name becomes the new name when, and
  only when, \<^verbatim>\<open>iconv_open\<close> has returned a descriptor, and otherwise stays while the
  process exits.
\<close>

theorem charset_cache:
  assumes "consistent st" and "resolve e s = (lg, Inr (name, k))"
  shows "\<exists>new. calls (fst (convert_text e st s)) = calls st @ new \<and>
           (if cs_old st = name
            then handle_calls new = []
                 \<and> cs_old (fst (convert_text e st s)) = name
                 \<and> cd (fst (convert_text e st s)) = cd st
            else handle_calls new =
                   (case cd st of None \<Rightarrow> [] | Some h \<Rightarrow> [IconvClose h]) @ [IconvOpen name]
                 \<and> (if iconv_open e name
                      then cs_old (fst (convert_text e st s)) = name
                           \<and> cd (fst (convert_text e st s)) = Some name
                      else cs_old (fst (convert_text e st s)) = cs_old st
                           \<and> snd (convert_text e st s) = Inl (UnsupportedCharset name)))"
proof -
  from resolve_Inr [OF assms(2)] have "name \<noteq> []"
    by simp
  then have "cs_old st = name \<Longrightarrow> cd st = Some name"
    using assms(1) by (simp add: consistent_same_name)
  then show ?thesis
    using convert_text_cache [OF assms] by auto
qed

text \<open>
  With ISO6937 cached, a field in ISO-8859-5 closes that descriptor and opens one for
  ISO-8859-5; with ISO-8859-5 cached, the same field closes and opens nothing.
\<close>

theorem charset_cache_witness:
  "consistent \<lparr>cs_old = ''ISO6937'', cd = Some ''ISO6937'', calls = []\<rparr>
   \<and> resolve stub_env [CHR 0x01, CHR ''H'', CHR ''i''] = ([], Inr (''ISO-8859-5'', 1))
   \<and> handle_calls (calls (fst (convert_text stub_env
        \<lparr>cs_old = ''ISO6937'', cd = Some ''ISO6937'', calls = []\<rparr> [CHR 0x01, CHR ''H'', CHR ''i''])))
      = [IconvClose ''ISO6937'', IconvOpen ''ISO-8859-5'']
   \<and> cs_old (fst (convert_text stub_env
        \<lparr>cs_old = ''ISO6937'', cd = Some ''ISO6937'', calls = []\<rparr> [CHR 0x01, CHR ''H'', CHR ''i'']))
      = ''ISO-8859-5''
   \<and> handle_calls (calls (fst (convert_text stub_env
        \<lparr>cs_old = ''ISO-8859-5'', cd = Some ''ISO-8859-5'', calls = []\<rparr>
        [CHR 0x01, CHR ''H'', CHR ''i''])))
      = []"
proof -
  let ?st = "\<lparr>cs_old = ''ISO6937'', cd = Some ''ISO6937'', calls = []\<rparr>"
  have a: "consistent ?st" by (simp add: consistent_def)
  have b: "resolve stub_env [CHR 0x01, CHR ''H'', CHR ''i''] = ([], Inr (''ISO-8859-5'', 1))"
    by (simp add: resolve_def first_byte_def encoding_def encoding_fixed_def strncpy_def cstr_def)
  have c: "iconv_open stub_env ''ISO-8859-5''" by (simp add: stub_env_def)
  let ?st' = "\<lparr>cs_old = ''ISO-8859-5'', cd = Some ''ISO-8859-5'', calls = []\<rparr>"
  have a': "consistent ?st'" by (simp add: consistent_def)
  show ?thesis
    using charset_cache [OF a b] charset_cache [OF a' b] a b c by auto
qed

subsection \<open>Reserved slots and empty fields\<close>

text \<open>
  C7. For every field whose first byte selects a reserved slot (0x00, 0x0C to 0x0F, 0x16 to
  0x1E), resolution fails with \<open>UnsupportedEncoding\<close> for that byte after logging it as a
  reserved encoding, and the pipeline returns the empty string: it makes no other call, does not
  exit, and leaves the static variables as they were.
\<close>

theorem reserved_slot:
  assumes "n = (of_char (first_byte s) :: nat)"
    and "n = 0 \<or> 12 \<le> n \<and> n \<le> 15 \<or> 22 \<le> n \<and> n \<le> 30"
  shows "resolve e s =
           ([Log WARNING (ReservedEncoding (first_byte s))], Inl (UnsupportedEncoding (first_byte s)))
         \<and> convert_text e st s =
           (st\<lparr>calls := calls st @ [Log WARNING (ReservedEncoding (first_byte s))]\<rparr>, Inr [])"
  using resolve_reserved [OF assms, of e] by (simp add: convert_text_def)

text \<open>The scenario of the specification: the single byte 0x0C.\<close>

theorem reserved_slot_witness:
  "resolve stub_env [CHR 0x0C] =
     ([Log WARNING (ReservedEncoding (CHR 0x0C))], Inl (UnsupportedEncoding (CHR 0x0C)))
   \<and> convert_text stub_env init_state [CHR 0x0C] =
     (\<lparr>cs_old = [], cd = None, calls = [Log WARNING (ReservedEncoding (CHR 0x0C))]\<rparr>, Inr [])"
  using reserved_slot [of 12 "[CHR 0x0C]" stub_env init_state]
  by (simp add: first_byte_def init_state_def)

text \<open>
  C8, as amended. For every empty field (a string without a byte before its terminator),
  resolution fails as for the reserved slot 0x00, with \<open>UnsupportedEncoding\<close> for the byte
  0x00 and the log of a reserved encoding, and the pipeline returns the empty string.
\<close>

theorem empty_field:
  assumes "cstr s = []"
  shows "resolve e s =
           ([Log WARNING (ReservedEncoding (CHR 0x00))], Inl (UnsupportedEncoding (CHR 0x00)))
         \<and> convert_text e st s =
           (st\<lparr>calls := calls st @ [Log WARNING (ReservedEncoding (CHR 0x00))]\<rparr>, Inr [])"
proof -
  have fb: "first_byte s = CHR 0x00"
    using assms by (cases s) (auto simp: cstr_def first_byte_def split: if_splits)
  then have "(0::nat) = of_char (first_byte s)" by simp
  from resolve_reserved [OF this, of e] show ?thesis
    by (simp add: convert_text_def fb)
qed

theorem empty_field_witness:
  "cstr [] = [] \<and> snd (resolve stub_env []) = Inl (UnsupportedEncoding (CHR 0x00))
   \<and> convert_text stub_env init_state [] =
     (\<lparr>cs_old = [], cd = None, calls = [Log WARNING (ReservedEncoding (CHR 0x00))]\<rparr>, Inr [])"
  using empty_field [of "[]" stub_env init_state]
  by (simp add: cstr_def init_state_def)

text \<open>
  C8 as stated fails: the error of the empty field is that of the reserved slot 0x00, not
  \<open>InvalidInput\<close>; and the selector 0x10 without its two bytes resolves to a name and moves the
  pointer by 3 bytes, behind the terminator, where the conversion reads.
\<close>

theorem empty_field_counterexample:
  "resolve stub_env [] =
     ([Log WARNING (ReservedEncoding (CHR 0x00))], Inl (UnsupportedEncoding (CHR 0x00)))
   \<and> snd (resolve stub_env []) \<noteq> Inl InvalidInput
   \<and> resolve stub_env [CHR 0x10] = ([], Inr (''ISO-8859-12594'', 3))
   \<and> snd (convert_text stub_env init_state [CHR 0x10]) = Inl (Undefined ReadPastEnd)"
  by (simp add: convert_text_def resolve_def first_byte_def encoding_def encoding_variable_def
      encoding_reserved_def deref_def stub_env_def snprintf_def cstr_def digits.simps
      decode_freesat_def advance_def switch_charset_def strncmp_def strncpy_def init_state_def
      run_iconv_def)

subsection \<open>Fixed charsets\<close>

text \<open>
  C6. For every field whose first byte selects a fixed slot (0x01 to 0x0B, 0x11 to 0x15),
  resolution returns the name of that slot and moves the pointer by 1 byte. The bytes 0x01,
  \<open>H\<close>, \<open>i\<close> resolve to ISO-8859-5 with offset 1, and the pipeline returns \<open>Hi\<close> for
  them when the engine opens ISO-8859-5 and converts \<open>Hi\<close> to \<open>Hi\<close>.
\<close>

theorem fixed_charset:
  "((1 \<le> n \<and> n \<le> 11 \<or> 17 \<le> n \<and> n \<le> 21) \<and> n = (of_char b0 :: nat) \<longrightarrow>
      (\<exists>name. encoding ! n = (encoding_fixed, Some name)
             \<and> resolve e (b0 # rest) = ([], Inr (name, 1))))
   \<and> resolve e [CHR 0x01, CHR ''H'', CHR ''i''] = ([], Inr (''ISO-8859-5'', 1))
   \<and> (consistent st \<and> iconv_open e ''ISO-8859-5'' \<and> iconv e ''ISO-8859-5'' ''Hi'' = ''Hi'' \<longrightarrow>
        snd (convert_text e st [CHR 0x01, CHR ''H'', CHR ''i'']) = Inr ''Hi'')"
proof (intro conjI impI)
  assume a: "(1 \<le> n \<and> n \<le> 11 \<or> 17 \<le> n \<and> n \<le> 21) \<and> n = (of_char b0 :: nat)"
  then have "n = (of_char (first_byte (b0 # rest)) :: nat)"
    by (simp add: first_byte_def)
  from resolve_fixed [OF this, of e] a
  show "\<exists>name. encoding ! n = (encoding_fixed, Some name)
             \<and> resolve e (b0 # rest) = ([], Inr (name, 1))"
    by blast
next
  show res: "resolve e [CHR 0x01, CHR ''H'', CHR ''i''] = ([], Inr (''ISO-8859-5'', 1))"
    by (simp add: resolve_def first_byte_def encoding_def encoding_fixed_def strncpy_def cstr_def)
  assume b: "consistent st \<and> iconv_open e ''ISO-8859-5'' \<and> iconv e ''ISO-8859-5'' ''Hi'' = ''Hi''"
  let ?st2 = "fst (switch_charset e ''ISO-8859-5'' st)"
  have "strncmp (cs_old st) ''ISO-8859-5'' 16 = (cs_old st \<noteq> ''ISO-8859-5'')"
    using b by (simp add: strncmp_consistent)
  then have cd2: "cd ?st2 = Some ''ISO-8859-5''"
    using b consistent_same_name [of st "''ISO-8859-5''"]
    by (auto simp: switch_charset_cd)
  have "convert_text e st [CHR 0x01, CHR ''H'', CHR ''i''] = run_iconv e (Some ''Hi'') ?st2"
    using b by (simp add: convert_text_resolved [OF res] first_byte_def advance_def)
  then show "snd (convert_text e st [CHR 0x01, CHR ''H'', CHR ''i'']) = Inr ''Hi''"
    using b cd2
    by (simp add: run_iconv_def Let_def cstr_def buf_size_def MAX_len_def xmlify_def
        result_size_def)
qed

theorem fixed_charset_witness:
  "resolve stub_env (CHR 0x14 # ''x'') = ([], Inr (''BIG5'', 1))
   \<and> snd (convert_text stub_env init_state [CHR 0x01, CHR ''H'', CHR ''i'']) = Inr ''Hi''"
proof -
  have "consistent init_state \<and> iconv_open stub_env ''ISO-8859-5''
        \<and> iconv stub_env ''ISO-8859-5'' ''Hi'' = ''Hi''"
    by (simp add: consistent_init stub_env_def)
  moreover have "(1 \<le> (20::nat) \<and> (20::nat) \<le> 11 \<or> 17 \<le> (20::nat) \<and> (20::nat) \<le> 21)
                 \<and> (20::nat) = of_char (CHR 0x14)"
    by simp
  moreover have "encoding ! 20 = (encoding_fixed, Some ''BIG5'')"
    by (simp add: encoding_def)
  ultimately show ?thesis
    using fixed_charset [of 20 "CHR 0x14" stub_env "''x''" init_state]
    by auto
qed

subsection \<open>The Freesat decoder\<close>

text \<open>
  What the pipeline does on a field whose first byte is 0x1F: the test \<^verbatim>\<open>i < 0x1F\<close> of line
  156 sends the byte to the default handler, so the decoder is called on the whole field and its
  output is converted as ISO6937 text before it is escaped. The slot 0x1F of the table, with the
  Freesat handler and the charset ISO-10646/UTF8, is never called.
\<close>

lemma convert_text_freesat:
  fixes e st rest
  defines "s \<equiv> CHR 0x1F # rest"
  defines "u \<equiv> freesat_huffman_to_string e s (strlen s)"
  defines "w \<equiv> iconv e ''ISO6937'' (cstr u)"
  assumes "consistent st" and "iconv_open e ''ISO6937''" and "length w < buf_size"
  shows "resolve e s = ([], Inr (''ISO6937'', 0))
         \<and> calls (fst (convert_text e st s)) =
             calls st @ [FreesatHuffman s (strlen s)]
             @ (if cs_old st = ''ISO6937'' then []
                else (case cd st of None \<Rightarrow> [] | Some h \<Rightarrow> [IconvClose h]) @ [IconvOpen ''ISO6937''])
             @ [Iconv ''ISO6937'' (cstr u)] @ fst (xmlify w)
         \<and> snd (convert_text e st s) = snd (xmlify w)"
proof -
  have fb: "(of_char (first_byte s) :: nat) = 0x1F"
    by (simp add: s_def first_byte_def)
  then have res: "resolve e s = ([], Inr (''ISO6937'', 0))"
    by (simp add: resolve_default)
  have cmp: "strncmp (cs_old st) ''ISO6937'' 16 = (cs_old st \<noteq> ''ISO6937'')"
    using assms(4) by (simp add: strncmp_consistent)
  let ?st1 = "st\<lparr>calls := calls st @ [FreesatHuffman s (strlen s)]\<rparr>"
  let ?st2 = "fst (switch_charset e ''ISO6937'' ?st1)"
  have ct: "convert_text e st s = run_iconv e (Some u) ?st2"
    using assms(5) by (simp add: convert_text_resolved [OF res] fb Let_def u_def)
  have cd2: "cd ?st2 = Some ''ISO6937''"
    using assms(5) consistent_same_name [OF assms(4), of "''ISO6937''"]
    by (simp add: switch_charset_cd cmp)
  have calls2: "calls ?st2 =
      calls st @ [FreesatHuffman s (strlen s)]
      @ (if cs_old st = ''ISO6937'' then []
         else (case cd st of None \<Rightarrow> [] | Some h \<Rightarrow> [IconvClose h]) @ [IconvOpen ''ISO6937''])"
    using assms(5) by (simp add: switch_charset_calls cmp)
  have take: "take buf_size w = w"
    using assms(6) by simp
  have run: "run_iconv e (Some u) ?st2 =
      (?st2\<lparr>calls := calls ?st2 @ [Iconv ''ISO6937'' (cstr u)] @ fst (xmlify w)\<rparr>, snd (xmlify w))"
    using assms(6) cd2 take
    by (simp add: run_iconv_def Let_def w_def [symmetric] split: prod.splits)
  show ?thesis
    unfolding ct run using res calls2 by simp
qed

text \<open>
  C3 fails on the code because of that test. On the bytes 0x1F, 0xA4 the decoder is called on
  the whole field, the byte 0x1F included, and returns the byte 0xA4 (with the stub decoder).
  The table holds the Freesat handler for this byte, which would name ISO-10646/UTF8 and leave
  the pointer; with that name the remaining steps of the pipeline return the byte 0xA4, which is
  the escaped output of the decoder. The code never calls the handler: it resolves ISO6937,
  converts the output of the decoder from ISO6937 and returns the dollar sign the engine wrote.
\<close>

theorem freesat_slot_skipped:
  "encoding ! 0x1F = (encoding_freesat, Some ''ISO-10646/UTF8'')
   \<and> encoding_freesat (Some [CHR 0x1F, CHR 0xA4] # words_after_s stub_env) (Some ''ISO-10646/UTF8'')
       = ([], Inr (''ISO-10646/UTF8'', 0))
   \<and> snd (run_iconv stub_env (Some (freesat_huffman_to_string stub_env [CHR 0x1F, CHR 0xA4] 2))
            (fst (switch_charset stub_env ''ISO-10646/UTF8'' init_state)))
       = Inr [CHR 0xA4]
   \<and> snd (xmlify (freesat_huffman_to_string stub_env [CHR 0x1F, CHR 0xA4] 2)) = Inr [CHR 0xA4]
   \<and> resolve stub_env [CHR 0x1F, CHR 0xA4] = ([], Inr (''ISO6937'', 0))
   \<and> calls (fst (convert_text stub_env init_state [CHR 0x1F, CHR 0xA4])) =
       [FreesatHuffman [CHR 0x1F, CHR 0xA4] 2, IconvOpen ''ISO6937'', Iconv ''ISO6937'' [CHR 0xA4]]
   \<and> snd (convert_text stub_env init_state [CHR 0x1F, CHR 0xA4]) = Inr ''$''"
  by (simp add: convert_text_def resolve_def first_byte_def encoding_def encoding_default_def
      encoding_freesat_def iso6937_encoding_def stub_env_def cstr_def strlen_def
      decode_freesat_def advance_def switch_charset_def strncmp_def strncpy_def init_state_def
      run_iconv_def Let_def buf_size_def MAX_len_def xmlify_def result_size_def)

end
